theory Spec2Isabelle
  imports Complex_Main "HOL-Library.Multiset"
begin

section \<open>Strings as the heuristic reads them\<close>

text \<open>
  A Python \<open>str\<close> is a sequence of code points. The model works on \<open>string\<close>, where
  a \<open>char\<close> stands for the code point \<open>of_char c\<close>, so it covers the code points
  below 256 (ASCII and Latin-1). On that range \<open>str.lower\<close> and \<open>str.strip\<close> are
  the tables below.
\<close>

definition is_space :: "char \<Rightarrow> bool" where
  \<comment> \<open>\<open>str.isspace\<close> on one code point: TAB, LF, VT, FF, CR, FS, GS, RS, US, space,
      NEL (133) and the no-break space (160)\<close>
  "is_space c =
     (let n = (of_char c :: nat)
      in (9 \<le> n \<and> n \<le> 13) \<or> (28 \<le> n \<and> n \<le> 32) \<or> n = 133 \<or> n = 160)"

definition lower_char :: "char \<Rightarrow> char" where
  \<comment> \<open>\<open>str.lower\<close> on one code point: A to Z, and the capital letters 192 to 222 of
      Latin-1 but for the multiplication sign 215, move up by 32\<close>
  "lower_char c =
     (let n = (of_char c :: nat)
      in if (65 \<le> n \<and> n \<le> 90) \<or> (192 \<le> n \<and> n \<le> 222 \<and> n \<noteq> 215)
         then char_of (n + 32) else c)"

definition lower :: "string \<Rightarrow> string" where
  "lower s = map lower_char s"

definition strip :: "string \<Rightarrow> string" where
  \<comment> \<open>\<open>s.strip()\<close>: leading and trailing whitespace removed\<close>
  "strip s = rev (dropWhile is_space (rev (dropWhile is_space s)))"

primrec startswith :: "string \<Rightarrow> string \<Rightarrow> bool" where
  \<comment> \<open>\<open>s.startswith(p)\<close>, the second argument consumed\<close>
  "startswith s [] = True"
| "startswith s (p # ps) = (case s of [] \<Rightarrow> False | c # cs \<Rightarrow> c = p \<and> startswith cs ps)"

fun str_contains :: "string \<Rightarrow> string \<Rightarrow> bool" where
  \<comment> \<open>\<open>sub in s\<close> of Python, by a search from every position of \<open>s\<close>\<close>
  "str_contains sub [] = (sub = [])"
| "str_contains sub (c # s) = (startswith (c # s) sub \<or> str_contains sub s)"

section \<open>The SEO heuristic\<close>

definition keyword_in_title :: "string \<Rightarrow> string \<Rightarrow> bool" where
  "keyword_in_title title kw = str_contains (lower (strip kw)) (lower (strip title))"

text \<open>
  The two label texts. The source ends each with an emoji, a check mark or a cross, which
  the constructors leave out.
\<close>

datatype label = Optimizable | Not_Optimizable

definition conf_of :: "string \<Rightarrow> string \<Rightarrow> int" where
  \<comment> \<open>\<open>conf = 80 if keyword_in_title(title, keyword) else 50\<close>\<close>
  "conf_of title keyword = (if keyword_in_title title keyword then 80 else 50)"

definition label_of :: "int \<Rightarrow> label" where
  \<comment> \<open>\<open>label = "Optimizable ..." if conf > 70 else "Not Optimizable ..."\<close>\<close>
  "label_of conf = (if conf > 70 then Optimizable else Not_Optimizable)"

definition seo_prediction :: "string \<Rightarrow> string \<Rightarrow> label \<times> int" where
  \<comment> \<open>what the button of the first tab hands to \<open>st.metric\<close>\<close>
  "seo_prediction title keyword = (let conf = conf_of title keyword in (label_of conf, conf))"

section \<open>Letters swapped with their case partner\<close>

text \<open>
  \<open>case_partner\<close> swaps a letter with its case partner where that partner is one code
  point below 256: A to Z with a to z, and 192 to 222 with 224 to 254 (215 and 247 are the
  multiplication and division signs). This is not every change of case Python knows: the
  upper case of the sharp s (223) is the two letters \<open>SS\<close>, and the upper cases of the
  micro sign (181) and of the y with diaeresis (255) lie above 255. These three are left
  alone here, and \<open>case_swapped\<close> relates two strings of equal length only.
\<close>

definition case_partner :: "char \<Rightarrow> char" where
  "case_partner c =
     (let n = (of_char c :: nat)
      in if (65 \<le> n \<and> n \<le> 90) \<or> (192 \<le> n \<and> n \<le> 222 \<and> n \<noteq> 215)
         then char_of (n + 32)
         else if (97 \<le> n \<and> n \<le> 122) \<or> (224 \<le> n \<and> n \<le> 254 \<and> n \<noteq> 247)
         then char_of (n - 32) else c)"

definition case_swapped :: "string \<Rightarrow> string \<Rightarrow> bool" where
  \<comment> \<open>\<open>t\<close> is \<open>s\<close> with some of its letters replaced by their case partner\<close>
  "case_swapped s t = list_all2 (\<lambda>c d. d = c \<or> d = case_partner c) s t"

section \<open>The Search Console client\<close>

text \<open>
  A calendar date is its proleptic Gregorian ordinal (\<open>date.toordinal()\<close>): day 1 is
  0001-01-01 and day 3652059 is 9999-12-31, the range of \<open>datetime.date\<close>. \<open>str\<close> of
  a date is its ISO text, which names the date uniquely, so a request keeps the date.
\<close>

type_synonym date = int

datatype error = AuthError | HttpError | KeyError | IndexError | ParserError | OverflowError
  | ValueError

definition MAX_HISTORY :: int where
  "MAX_HISTORY = 90"

definition SITE_URL :: string where
  "SITE_URL = ''https://locusit.se/''"

definition start_date :: "date \<Rightarrow> int \<Rightarrow> error + date" where
  \<comment> \<open>\<open>today - datetime.timedelta(days=days)\<close>: a \<open>timedelta\<close> holds at most
      999999999 days either way, and the difference has to be a date\<close>
  "start_date today days =
     (if days < - 999999999 \<or> 999999999 < days then Inl OverflowError
      else if today - days < 1 \<or> 3652059 < today - days then Inl OverflowError
      else Inr (today - days))"

record dim_filter =
  dimension :: string
  operator :: string
  expression :: string

record request =
  startDate :: date
  endDate :: date
  dimensions :: "string list"
  rowLimit :: int
  metrics :: "string list option"
  dimensionFilterGroups :: "dim_filter list list option"

text \<open>
  A response is the decoded JSON: \<open>rows\<close> may be missing, and so may any field of a
  row. The metrics are numbers; the model takes them as integers.
\<close>

record row =
  keys :: "string list option"
  row_clicks :: "int option"
  row_impressions :: "int option"

record response =
  rows :: "row list option"

text \<open>
  What a call depends on beyond its arguments: the day \<open>datetime.date.today()\<close>
  returns, the service \<open>gsc_service()\<close> builds (or the error it raises), whose
  \<open>execute\<close> answers a request or raises, and the parser behind \<open>pd.to_datetime\<close>,
  applied to each key (\<open>None\<close> where it raises). The one-hour cache of
  \<open>st.cache_data\<close> is not modelled: every call is a miss.
\<close>

record env =
  today :: date
  gsc_service :: "error + (request \<Rightarrow> error + response)"
  to_datetime :: "string \<Rightarrow> date option"

record point =
  ds :: date
  y :: int

record query_row =
  keyword :: string
  clicks :: int
  impressions :: int

definition get_rows :: "response \<Rightarrow> row list" where
  \<comment> \<open>\<open>resp.get("rows", [])\<close>\<close>
  "get_rows resp = (case rows resp of None \<Rightarrow> [] | Some rs \<Rightarrow> rs)"

definition get_clicks :: "row \<Rightarrow> int" where
  \<comment> \<open>\<open>r.get("clicks", 0)\<close>\<close>
  "get_clicks r = (case row_clicks r of None \<Rightarrow> 0 | Some c \<Rightarrow> c)"

definition get_impressions :: "row \<Rightarrow> int" where
  \<comment> \<open>\<open>r.get("impressions", 0)\<close>\<close>
  "get_impressions r = (case row_impressions r of None \<Rightarrow> 0 | Some c \<Rightarrow> c)"

definition key0 :: "row \<Rightarrow> error + string" where
  \<comment> \<open>\<open>r["keys"][0]\<close>\<close>
  "key0 r = (case keys r of None \<Rightarrow> Inl KeyError | Some [] \<Rightarrow> Inl IndexError
             | Some (k # ks) \<Rightarrow> Inr k)"

fun collect :: "('a \<Rightarrow> error + 'b) \<Rightarrow> 'a list \<Rightarrow> error + 'b list" where
  \<comment> \<open>a list comprehension whose element expression may raise: the first error ends it\<close>
  "collect f [] = Inr []"
| "collect f (x # xs) =
     (case f x of Inl e \<Rightarrow> Inl e
      | Inr v \<Rightarrow> (case collect f xs of Inl e \<Rightarrow> Inl e | Inr vs \<Rightarrow> Inr (v # vs)))"

definition parse_key :: "env \<Rightarrow> string \<Rightarrow> error + date" where
  "parse_key e k = (case to_datetime e k of None \<Rightarrow> Inl ParserError | Some d \<Rightarrow> Inr d)"

definition date_frame :: "env \<Rightarrow> row list \<Rightarrow> error + point list" where
  \<comment> \<open>\<open>pd.DataFrame({"ds": pd.to_datetime([r["keys"][0] for r in rows]),
      "y": [r.get("clicks", 0) for r in rows]}).sort_values("ds")\<close>. Rows of equal
      \<open>ds\<close> are kept in their order here; pandas leaves their order to the sort.\<close>
  "date_frame e rs =
     (case collect key0 rs of Inl err \<Rightarrow> Inl err
      | Inr ks \<Rightarrow>
          (case collect (parse_key e) ks of Inl err \<Rightarrow> Inl err
           | Inr dates \<Rightarrow>
               Inr (sort_key ds
                 (map (\<lambda>(d, c). \<lparr>ds = d, y = c\<rparr>) (zip dates (map get_clicks rs))))))"

definition site_body :: "date \<Rightarrow> date \<Rightarrow> request" where
  "site_body start tday =
     \<lparr>startDate = start, endDate = tday, dimensions = [''date''], rowLimit = 10000,
      metrics = None, dimensionFilterGroups = None\<rparr>"

definition fetch_site_data :: "env \<Rightarrow> int \<Rightarrow> error + point list" where
  "fetch_site_data e days =
     (case gsc_service e of Inl err \<Rightarrow> Inl err
      | Inr svc \<Rightarrow>
          (case start_date (today e) days of Inl err \<Rightarrow> Inl err
           | Inr start \<Rightarrow>
               (case svc (site_body start (today e)) of Inl err \<Rightarrow> Inl err
                | Inr resp \<Rightarrow> date_frame e (get_rows resp))))"

definition queries_body :: "date \<Rightarrow> date \<Rightarrow> int \<Rightarrow> request" where
  "queries_body start tday limit =
     \<lparr>startDate = start, endDate = tday, dimensions = [''query''], rowLimit = limit,
      metrics = Some [''clicks'', ''impressions''], dimensionFilterGroups = None\<rparr>"

definition query_record :: "row \<Rightarrow> error + query_row" where
  \<comment> \<open>\<open>{"keyword": r["keys"][0], "clicks": r.get("clicks",0),
      "impressions": r.get("impressions",0)}\<close>\<close>
  "query_record r =
     (case key0 r of Inl err \<Rightarrow> Inl err
      | Inr k \<Rightarrow> Inr \<lparr>keyword = k, clicks = get_clicks r, impressions = get_impressions r\<rparr>)"

definition fetch_queries_df :: "env \<Rightarrow> int \<Rightarrow> int \<Rightarrow> error + query_row list" where
  "fetch_queries_df e days limit =
     (case gsc_service e of Inl err \<Rightarrow> Inl err
      | Inr svc \<Rightarrow>
          (case start_date (today e) days of Inl err \<Rightarrow> Inl err
           | Inr start \<Rightarrow>
               (case svc (queries_body start (today e) limit) of Inl err \<Rightarrow> Inl err
                | Inr resp \<Rightarrow> collect query_record (get_rows resp))))"

definition rstrip_slash :: "string \<Rightarrow> string" where
  \<comment> \<open>\<open>s.rstrip("/")\<close>\<close>
  "rstrip_slash s = rev (dropWhile (\<lambda>c. c = CHR ''/'') (rev s))"

definition filter_body :: "date \<Rightarrow> date \<Rightarrow> string \<Rightarrow> string \<Rightarrow> request" where
  \<comment> \<open>the request of \<open>fetch_page_data\<close> and \<open>fetch_keyword_data\<close>: one equality
      filter on the dimension named\<close>
  "filter_body start tday dname expr =
     \<lparr>startDate = start, endDate = tday, dimensions = [''date''], rowLimit = 10000,
      metrics = None,
      dimensionFilterGroups =
        Some [[\<lparr>dimension = dname, operator = ''equals'', expression = expr\<rparr>]]\<rparr>"

definition fetch_page_data :: "env \<Rightarrow> string \<Rightarrow> int \<Rightarrow> error + point list" where
  "fetch_page_data e path days =
     (case gsc_service e of Inl err \<Rightarrow> Inl err
      | Inr svc \<Rightarrow>
          (case start_date (today e) days of Inl err \<Rightarrow> Inl err
           | Inr start \<Rightarrow>
               (case svc (filter_body start (today e) ''page'' (rstrip_slash SITE_URL @ path))
                of Inl err \<Rightarrow> Inl err
                | Inr resp \<Rightarrow> date_frame e (get_rows resp))))"

definition fetch_keyword_data :: "env \<Rightarrow> string \<Rightarrow> int \<Rightarrow> error + point list" where
  "fetch_keyword_data e kw days =
     (case gsc_service e of Inl err \<Rightarrow> Inl err
      | Inr svc \<Rightarrow>
          (case start_date (today e) days of Inl err \<Rightarrow> Inl err
           | Inr start \<Rightarrow>
               (case svc (filter_body start (today e) ''query'' kw) of Inl err \<Rightarrow> Inl err
                | Inr resp \<Rightarrow> date_frame e (get_rows resp))))"

section \<open>Reading a fetch through the response it got\<close>

definition remote_answer :: "env \<Rightarrow> int \<Rightarrow> (date \<Rightarrow> date \<Rightarrow> request) \<Rightarrow> error + response" where
  \<comment> \<open>the first three steps every fetch function takes: the service, the start date,
      the request built by \<open>body\<close> and executed\<close>
  "remote_answer e days body =
     (case gsc_service e of Inl err \<Rightarrow> Inl err
      | Inr svc \<Rightarrow>
          (case start_date (today e) days of Inl err \<Rightarrow> Inl err
           | Inr start \<Rightarrow> svc (body start (today e))))"

definition row_date :: "env \<Rightarrow> row \<Rightarrow> date option" where
  \<comment> \<open>the date a response row stands for, if it has a first key and the key parses\<close>
  "row_date e r = (case key0 r of Inl err \<Rightarrow> None | Inr k \<Rightarrow> to_datetime e k)"

definition row_point :: "env \<Rightarrow> row \<Rightarrow> point" where
  "row_point e r = \<lparr>ds = the (row_date e r), y = get_clicks r\<rparr>"

definition has_key :: "row \<Rightarrow> bool" where
  "has_key r = (case keys r of Some (k # ks) \<Rightarrow> True | _ \<Rightarrow> False)"

definition has_date :: "env \<Rightarrow> row \<Rightarrow> bool" where
  "has_date e r = (row_date e r \<noteq> None)"

definition finish_dates :: "env \<Rightarrow> error + response \<Rightarrow> error + point list" where
  \<comment> \<open>what the three time-series fetches do with the outcome of \<open>execute\<close>\<close>
  "finish_dates e ans =
     (case ans of Inl err \<Rightarrow> Inl err | Inr resp \<Rightarrow> date_frame e (get_rows resp))"

definition finish_queries :: "error + response \<Rightarrow> error + query_row list" where
  \<comment> \<open>what \<open>fetch_queries_df\<close> does with the outcome of \<open>execute\<close>\<close>
  "finish_queries ans =
     (case ans of Inl err \<Rightarrow> Inl err | Inr resp \<Rightarrow> collect query_record (get_rows resp))"

definition no_rows :: "response \<Rightarrow> bool" where
  \<comment> \<open>zero matching rows: no \<open>rows\<close> field, or an empty one\<close>
  "no_rows resp = (rows resp = None \<or> rows resp = Some [])"

definition frame_of_rows :: "env \<Rightarrow> row list \<Rightarrow> point list \<Rightarrow> bool" where
  \<comment> \<open>\<open>pts\<close> is the table of the response rows \<open>rs\<close>: the same points, in order of
      date; its dates are strictly increasing just when the rows' dates are distinct,
      its values non-negative just when the rows' clicks are\<close>
  "frame_of_rows e rs pts =
     (sorted (map ds pts) \<and> mset pts = mset (map (row_point e) rs)
      \<and> sorted_wrt (<) (map ds pts) = distinct (map (row_date e) rs)
      \<and> list_all (\<lambda>p. 0 \<le> y p) pts = list_all (\<lambda>r. 0 \<le> get_clicks r) rs)"

section \<open>The ranking tab\<close>

text \<open>
  pandas divides two numeric columns as floating-point numbers: nothing is raised on a
  zero divisor, the quotient is an infinity or not-a-number. The model keeps these three
  values apart from the finite ones, and takes the finite ones as exact rationals.
\<close>

datatype fl = Fin rat | PInf | NInf | NaN

definition true_div :: "int \<Rightarrow> int \<Rightarrow> fl" where
  \<comment> \<open>one entry of \<open>df_r["clicks"] / df_r["impressions"]\<close>\<close>
  "true_div a b =
     (if b \<noteq> 0 then Fin (of_int a / of_int b)
      else if 0 < a then PInf else if a < 0 then NInf else NaN)"

fun fl_add :: "fl \<Rightarrow> fl \<Rightarrow> fl" where
  "fl_add (Fin a) (Fin b) = Fin (a + b)"
| "fl_add NaN v = NaN"
| "fl_add v NaN = NaN"
| "fl_add PInf NInf = NaN"
| "fl_add NInf PInf = NaN"
| "fl_add PInf v = PInf"
| "fl_add v PInf = PInf"
| "fl_add NInf v = NInf"
| "fl_add v NInf = NInf"

fun fl_scale :: "fl \<Rightarrow> rat \<Rightarrow> fl" where
  \<comment> \<open>product with, or quotient by, a positive finite number\<close>
  "fl_scale (Fin a) k = Fin (a * k)"
| "fl_scale v k = v"

definition fl_mean :: "fl list \<Rightarrow> fl" where
  \<comment> \<open>\<open>Series.mean()\<close>: the entries that are not-a-number are skipped, and the mean of
      no entries is not-a-number\<close>
  "fl_mean xs =
     (let vs = filter (\<lambda>v. v \<noteq> NaN) xs
      in if vs = [] then NaN else fl_scale (foldl fl_add (Fin 0) vs) (1 / of_nat (length vs)))"

definition round_half_even :: "rat \<Rightarrow> int" where
  "round_half_even q =
     (let f = \<lfloor>q\<rfloor>; r = q - of_int f
      in if r < 1 / 2 then f else if 1 / 2 < r then f + 1 else if even f then f else f + 1)"

fun round2 :: "fl \<Rightarrow> fl" where
  \<comment> \<open>\<open>round(x, 2)\<close>: an infinity and not-a-number come back as they are\<close>
  "round2 (Fin a) = Fin (of_int (round_half_even (a * 100)) / 100)"
| "round2 v = v"

definition avg_ctr :: "query_row list \<Rightarrow> fl" where
  \<comment> \<open>\<open>round((df_r["clicks"]/df_r["impressions"]).mean()*100,2)\<close>\<close>
  "avg_ctr df =
     round2 (fl_scale (fl_mean (map (\<lambda>r. true_div (clicks r) (impressions r)) df)) 100)"

datatype ranking = No_Query_Data | Ranking int fl "query_row list"

definition load_ranking :: "env \<Rightarrow> int \<Rightarrow> int \<Rightarrow> error + ranking" where
  \<comment> \<open>the button of the second tab: a warning on an empty table, else the total of the
      clicks, the average click-through rate in percent, and the table\<close>
  "load_ranking e d n =
     (case fetch_queries_df e d n of Inl err \<Rightarrow> Inl err
      | Inr df \<Rightarrow>
          Inr (if df = [] then No_Query_Data
               else Ranking (sum_list (map clicks df)) (avg_ctr df) df))"

section \<open>The forecast\<close>

text \<open>
  Modelled from the spec: Prophet, the forecasting library behind \<open>forecast\<close>, is
  not among the sources. Of the library the model keeps what the spec says of it: a
  fit on a history, a forecast frame that extends the history by the requested number of
  calendar days following the last observed date, one estimate per date. Whether a fit
  succeeds, and the estimates, are left to the two functions of \<open>numerics\<close>.
\<close>

record ('p, 'v) numerics =
  fit_params :: "bool \<Rightarrow> point list \<Rightarrow> error + 'p"
  estimate :: "'p \<Rightarrow> date \<Rightarrow> 'v"

record 'p prophet =
  daily_seasonality :: bool
  history_dates :: "date list"
  params :: "'p option"

definition Prophet :: "bool \<Rightarrow> 'p prophet" where
  \<comment> \<open>Modelled from the spec: the constructor \<open>Prophet(daily_seasonality=...)\<close>, a model
      not yet fitted\<close>
  "Prophet daily = \<lparr>daily_seasonality = daily, history_dates = [], params = None\<rparr>"

definition fit :: "('p, 'v) numerics \<Rightarrow> 'p prophet \<Rightarrow> point list \<Rightarrow> error + 'p prophet" where
  \<comment> \<open>Modelled from the spec: \<open>m.fit(df)\<close> keeps the dates of the history, in order and
      without repetition, and the fitted parameters\<close>
  "fit lib m df =
     (case fit_params lib (daily_seasonality m) df of Inl err \<Rightarrow> Inl err
      | Inr p \<Rightarrow> Inr (m\<lparr>history_dates := sort (remdups (map ds df)), params := Some p\<rparr>))"

definition make_future_dataframe :: "'p prophet \<Rightarrow> int \<Rightarrow> error + date list" where
  \<comment> \<open>Modelled from the spec: \<open>m.make_future_dataframe(periods=n)\<close>, with the library's
      defaults (daily frequency, history included): the history dates, then the \<open>n\<close>
      days after the last of them\<close>
  "make_future_dataframe m periods =
     (if history_dates m = [] \<or> periods + 1 < 0 then Inl ValueError
      else Inr (history_dates m @ [last (history_dates m) + 1 .. last (history_dates m) + periods]))"

definition predict :: "('p, 'v) numerics \<Rightarrow> 'p prophet \<Rightarrow> date list \<Rightarrow> error + (date \<times> 'v) list" where
  \<comment> \<open>Modelled from the spec: \<open>m.predict(future)\<close> gives one row per date of
      \<open>future\<close>, the date and its estimates\<close>
  "predict lib m future =
     (case params m of None \<Rightarrow> Inl ValueError
      | Some p \<Rightarrow> Inr (map (\<lambda>d. (d, estimate lib p d)) future))"

definition forecast ::
  "('p, 'v) numerics \<Rightarrow> point list \<Rightarrow> int \<Rightarrow> error + ('p prophet \<times> (date \<times> 'v) list)" where
  "forecast lib df days_ahead =
     (case fit lib (Prophet True) df of Inl err \<Rightarrow> Inl err
      | Inr m \<Rightarrow>
          (case make_future_dataframe m days_ahead of Inl err \<Rightarrow> Inl err
           | Inr future \<Rightarrow>
               (case predict lib m future of Inl err \<Rightarrow> Inl err
                | Inr fc \<Rightarrow> Inr (m, fc))))"

definition projected :: "point list \<Rightarrow> (date \<times> 'v) list \<Rightarrow> (date \<times> 'v) list" where
  \<comment> \<open>the rows of a forecast frame dated after the last day of the history\<close>
  "projected df fc = filter (\<lambda>r. Max (set (map ds df)) < fst r) fc"

definition strasse :: string where
  \<comment> \<open>the German word for street, written with the sharp s (code point 223);
      \<open>str.upper\<close> of it is \<open>STRASSE\<close>\<close>
  "strasse = ''stra'' @ [CHR 0xDF] @ ''e''"

definition honours_range :: "env \<Rightarrow> (request \<Rightarrow> error + response) \<Rightarrow> bool" where
  \<comment> \<open>the remote source answers a request only with rows dated within the range the
      request names, both ends included\<close>
  "honours_range e svc =
     (\<forall>req resp. svc req = Inr resp \<longrightarrow>
        list_all (\<lambda>r. case row_date e r of None \<Rightarrow> True
                        | Some d \<Rightarrow> startDate req \<le> d \<and> d \<le> endDate req)
          (get_rows resp))"

definition date_grouped :: "env \<Rightarrow> response \<Rightarrow> bool" where
  \<comment> \<open>an answer to a query grouped by date: one row for a date, and clicks that are
      counts, so never negative\<close>
  "date_grouped e resp =
     (distinct (map (row_date e) (get_rows resp))
      \<and> list_all (\<lambda>r. 0 \<le> get_clicks r) (get_rows resp))"

section \<open>Sample environments\<close>

definition sample_parse :: "string \<Rightarrow> date option" where
  \<comment> \<open>ISO dates with their ordinals; any other text does not parse\<close>
  "sample_parse =
     map_of [(''2000-01-01'', 730120), (''2024-01-01'', 738886), (''2024-01-02'', 738887),
             (''2024-01-03'', 738888)]"

definition sample_env :: "(request \<Rightarrow> error + response) \<Rightarrow> env" where
  \<comment> \<open>today is 2024-01-31, ordinal 738916\<close>
  "sample_env svc = \<lparr>today = 738916, gsc_service = Inr svc, to_datetime = sample_parse\<rparr>"

definition sample_row :: "string \<Rightarrow> int option \<Rightarrow> int option \<Rightarrow> row" where
  "sample_row k c i = \<lparr>keys = Some [k], row_clicks = c, row_impressions = i\<rparr>"

definition answer_rows :: "row list \<Rightarrow> request \<Rightarrow> error + response" where
  \<comment> \<open>a remote source that answers every request with the same rows\<close>
  "answer_rows rs req = Inr \<lparr>rows = Some rs\<rparr>"

definition answer_range :: "date \<Rightarrow> date \<Rightarrow> row list \<Rightarrow> request \<Rightarrow> error + response" where
  \<comment> \<open>a remote source that answers only a request for the given range\<close>
  "answer_range a b rs req =
     (if startDate req = a \<and> endDate req = b then Inr \<lparr>rows = Some rs\<rparr> else Inl HttpError)"


section \<open>Substring search and trimming\<close>

lemma startswith_iff: "startswith s p \<longleftrightarrow> (\<exists>q. s = p @ q)"
  by (induction p arbitrary: s) (auto split: list.splits)

lemma str_contains_iff: "str_contains sub s \<longleftrightarrow> (\<exists>p q. s = p @ sub @ q)"
proof (induction s)
  case Nil
  then show ?case by auto
next
  case (Cons c s)
  show ?case
  proof
    assume "str_contains sub (c # s)"
    then consider "startswith (c # s) sub" | "str_contains sub s" by auto
    then show "\<exists>p q. c # s = p @ sub @ q"
    proof cases
      case 1
      then obtain q where "c # s = sub @ q" by (auto simp: startswith_iff)
      then have "c # s = [] @ sub @ q" by simp
      then show ?thesis by blast
    next
      case 2
      with Cons.IH obtain p q where "s = p @ sub @ q" by blast
      then have "c # s = (c # p) @ sub @ q" by simp
      then show ?thesis by blast
    qed
  next
    assume "\<exists>p q. c # s = p @ sub @ q"
    then obtain p q where pq: "c # s = p @ sub @ q" by blast
    show "str_contains sub (c # s)"
    proof (cases p)
      case Nil
      with pq have "startswith (c # s) sub" by (auto simp: startswith_iff)
      then show ?thesis by simp
    next
      case (Cons a p')
      with pq have "s = p' @ sub @ q" by simp
      with Cons.IH have "str_contains sub s" by blast
      then show ?thesis by simp
    qed
  qed
qed

lemma dropWhile_all: "list_all P xs \<Longrightarrow> dropWhile P (xs @ ys) = dropWhile P ys"
  by (simp add: dropWhile_append2 list_all_iff)

lemma dropWhile_all_Nil: "list_all P xs \<Longrightarrow> dropWhile P xs = []"
  by (simp add: list_all_iff)

lemma dropWhile_not_all: "\<not> list_all P xs \<Longrightarrow> dropWhile P (xs @ ys) = dropWhile P xs @ ys"
  by (auto simp add: list_all_iff dropWhile_append1)

lemma strip_pad:
  assumes "list_all is_space a" "list_all is_space b"
  shows "strip (a @ s @ b) = strip s"
proof (cases "list_all is_space s")
  case True
  then have h1: "dropWhile is_space (a @ s @ b) = []"
    by (simp only: dropWhile_all [OF assms(1)] dropWhile_all [OF True]
        dropWhile_all_Nil [OF assms(2)])
  have h2: "dropWhile is_space s = []"
    using True by (rule dropWhile_all_Nil)
  show ?thesis by (simp only: strip_def h1 h2)
next
  case False
  have rb: "list_all is_space (rev b)"
    using assms(2) by (simp add: list_all_iff)
  have "dropWhile is_space (a @ s @ b) = dropWhile is_space s @ b"
    by (simp only: dropWhile_all [OF assms(1)] dropWhile_not_all [OF False])
  then have "rev (dropWhile is_space (a @ s @ b)) = rev b @ rev (dropWhile is_space s)"
    by simp
  then show ?thesis
    by (simp only: strip_def dropWhile_all [OF rb])
qed

lemma lower_char_space: "is_space (lower_char c) = is_space c"
proof -
  have "(of_char (char_of (of_char c + 32 :: nat)) :: nat) = of_char c + 32"
    if "(of_char c :: nat) \<le> 222"
    using that by (simp add: of_char_of)
  then show ?thesis
    unfolding is_space_def lower_char_def Let_def
    by (cases "(65 \<le> (of_char c :: nat) \<and> (of_char c :: nat) \<le> 90) \<or> (192 \<le> (of_char c :: nat) \<and> (of_char c :: nat) \<le> 222 \<and> (of_char c :: nat) \<noteq> 215)") auto
qed

lemma dropWhile_space_lower:
  "dropWhile is_space (map lower_char xs) = map lower_char (dropWhile is_space xs)"
  by (induction xs) (simp_all add: lower_char_space)

lemma strip_lower: "strip (lower s) = lower (strip s)"
  by (simp add: strip_def lower_def dropWhile_space_lower rev_map)

lemma lower_char_case_partner: "lower_char (case_partner c) = lower_char c"
proof -
  let ?n = "of_char c :: nat"
  have lt: "?n < 256" by simp
  consider (up) "(65 \<le> ?n \<and> ?n \<le> 90) \<or> (192 \<le> ?n \<and> ?n \<le> 222 \<and> ?n \<noteq> 215)"
    | (lo) "(97 \<le> ?n \<and> ?n \<le> 122) \<or> (224 \<le> ?n \<and> ?n \<le> 254 \<and> ?n \<noteq> 247)"
    | (no) "\<not> ((65 \<le> ?n \<and> ?n \<le> 90) \<or> (192 \<le> ?n \<and> ?n \<le> 222 \<and> ?n \<noteq> 215))"
           "\<not> ((97 \<le> ?n \<and> ?n \<le> 122) \<or> (224 \<le> ?n \<and> ?n \<le> 254 \<and> ?n \<noteq> 247))"
    by blast
  then show ?thesis
  proof cases
    case up
    then have oc: "case_partner c = char_of (?n + 32)"
      by (simp add: case_partner_def Let_def)
    have "?n + 32 < 256" using up by arith
    then have "(of_char (char_of (?n + 32)) :: nat) = ?n + 32"
      by (simp add: of_char_of)
    then have "lower_char (char_of (?n + 32)) = char_of (?n + 32)"
      using up unfolding lower_char_def Let_def by auto
    moreover have "lower_char c = char_of (?n + 32)"
      using up by (simp add: lower_char_def Let_def)
    ultimately show ?thesis using oc by simp
  next
    case lo
    then have nup: "\<not> ((65 \<le> ?n \<and> ?n \<le> 90) \<or> (192 \<le> ?n \<and> ?n \<le> 222 \<and> ?n \<noteq> 215))"
      by arith
    have oc: "case_partner c = char_of (?n - 32)"
      by (simp only: case_partner_def Let_def nup lo if_False if_True)
    have "?n - 32 < 256" using lt by arith
    then have m: "(of_char (char_of (?n - 32)) :: nat) = ?n - 32"
      by (simp add: of_char_of)
    have "lower_char (char_of (?n - 32)) = char_of ((?n - 32) + 32)"
      using lo unfolding lower_char_def Let_def m by auto
    moreover have "(?n - 32) + 32 = ?n" using lo by arith
    moreover have "lower_char c = c"
      by (simp only: lower_char_def Let_def nup if_False)
    ultimately show ?thesis using oc by simp
  next
    case no
    have "case_partner c = c"
      by (simp only: case_partner_def Let_def no if_False)
    then show ?thesis by simp
  qed
qed

lemma case_swapped_lower: "case_swapped s t \<Longrightarrow> lower t = lower s"
  unfolding case_swapped_def lower_def
  by (induction rule: list_all2_induct) (auto simp add: lower_char_case_partner)

lemma lower_strip_variant:
  assumes "case_swapped s t" "list_all is_space a" "list_all is_space b"
  shows "lower (strip (a @ t @ b)) = lower (strip s)"
  using assms by (simp add: strip_pad strip_lower [symmetric] case_swapped_lower)


section \<open>Frames built from a response\<close>

lemma collect_Inr_iff: "collect f xs = Inr vs \<longleftrightarrow> map f xs = map Inr vs"
proof (induction xs arbitrary: vs)
  case Nil
  then show ?case by auto
next
  case (Cons x xs)
  show ?case
  proof (cases "f x")
    case (Inl err)
    then show ?thesis by (cases vs) auto
  next
    case (Inr v)
    show ?thesis
    proof (cases "collect f xs")
      case (Inl err)
      have "map f xs \<noteq> map Inr ws" for ws
        using Cons.IH [of ws] Inl by auto
      then show ?thesis using Inl Inr by (cases vs) auto
    next
      case r2: (Inr ws)
      then have "map f xs = map Inr ws" using Cons.IH by blast
      then show ?thesis using Inr r2 by (cases vs) (auto simp add: inj_map_eq_map)
    qed
  qed
qed

lemma collect_all_Inr:
  "collect f xs = Inr (map g xs)" if "\<And>x. x \<in> set xs \<Longrightarrow> f x = Inr (g x)"
  using that by (simp add: collect_Inr_iff)

lemma remote_fetch_site:
  "fetch_site_data e days =
     (case remote_answer e days site_body of Inl err \<Rightarrow> Inl err
      | Inr resp \<Rightarrow> date_frame e (get_rows resp))"
  by (simp add: fetch_site_data_def remote_answer_def split: sum.splits)

lemma remote_fetch_page:
  "fetch_page_data e path days =
     (case remote_answer e days
             (\<lambda>s t. filter_body s t ''page'' (rstrip_slash SITE_URL @ path))
      of Inl err \<Rightarrow> Inl err | Inr resp \<Rightarrow> date_frame e (get_rows resp))"
  by (simp add: fetch_page_data_def remote_answer_def split: sum.splits)

lemma remote_fetch_keyword:
  "fetch_keyword_data e kw days =
     (case remote_answer e days (\<lambda>s t. filter_body s t ''query'' kw)
      of Inl err \<Rightarrow> Inl err | Inr resp \<Rightarrow> date_frame e (get_rows resp))"
  by (simp add: fetch_keyword_data_def remote_answer_def split: sum.splits)

lemma remote_fetch_queries:
  "fetch_queries_df e days limit =
     (case remote_answer e days (\<lambda>s t. queries_body s t limit)
      of Inl err \<Rightarrow> Inl err | Inr resp \<Rightarrow> collect query_record (get_rows resp))"
  by (simp add: fetch_queries_df_def remote_answer_def split: sum.splits)

lemma date_frame_Nil: "date_frame e [] = Inr []"
  by (simp add: date_frame_def)

lemma key0_parse_row_date:
  "key0 r = Inr k \<Longrightarrow> parse_key e k = Inr d \<Longrightarrow> row_date e r = Some d"
  by (simp add: row_date_def parse_key_def split: option.splits)

lemma date_frame_Inr:
  assumes "date_frame e rs = Inr pts"
  shows "list_all (has_date e) rs \<and> pts = sort_key ds (map (row_point e) rs)"
proof -
  from assms obtain ks dates where ks: "collect key0 rs = Inr ks"
    and dates: "collect (parse_key e) ks = Inr dates"
    and pts: "pts = sort_key ds (map (\<lambda>(d, c). \<lparr>ds = d, y = c\<rparr>) (zip dates (map get_clicks rs)))"
    by (auto simp add: date_frame_def split: sum.splits)
  from ks have mk: "map key0 rs = map Inr ks" by (simp add: collect_Inr_iff)
  from dates have md: "map (parse_key e) ks = map Inr dates" by (simp add: collect_Inr_iff)
  have len: "length ks = length rs" "length dates = length ks"
    using mk md by (metis length_map)+
  have rd: "row_date e (rs ! i) = Some (dates ! i)" if "i < length rs" for i
  proof -
    have "key0 (rs ! i) = Inr (ks ! i)"
      using mk that len by (metis nth_map)
    moreover have "parse_key e (ks ! i) = Inr (dates ! i)"
      using md that len by (metis nth_map)
    ultimately show ?thesis by (rule key0_parse_row_date)
  qed
  have "list_all (has_date e) rs"
    unfolding list_all_length has_date_def using rd by simp
  moreover have "map (\<lambda>(d, c). \<lparr>ds = d, y = c\<rparr>) (zip dates (map get_clicks rs)) = map (row_point e) rs"
    using len rd by (intro nth_equalityI) (simp_all add: row_point_def)
  ultimately show ?thesis using pts by simp
qed

lemma date_frame_has_date:
  assumes "list_all (has_date e) rs"
  shows "date_frame e rs = Inr (sort_key ds (map (row_point e) rs))"
proof -
  have k: "key0 r = Inr (projr (key0 r)) \<and>
      parse_key e (projr (key0 r)) = Inr (the (row_date e r))"
    if "r \<in> set rs" for r
  proof -
    from assms that have nn: "row_date e r \<noteq> None"
      by (simp add: list_all_iff has_date_def)
    then obtain k where k: "key0 r = Inr k"
      by (cases "key0 r") (simp_all add: row_date_def)
    with nn obtain d where "to_datetime e k = Some d"
      by (auto simp add: row_date_def)
    with k show ?thesis by (simp add: row_date_def parse_key_def)
  qed
  have 1: "collect key0 rs = Inr (map (\<lambda>r. projr (key0 r)) rs)"
    using k by (simp add: collect_Inr_iff)
  have 2: "collect (parse_key e) (map (\<lambda>r. projr (key0 r)) rs) = Inr (map (\<lambda>r. the (row_date e r)) rs)"
    using k by (simp add: collect_Inr_iff)
  have 3: "map (\<lambda>(d, c). \<lparr>ds = d, y = c\<rparr>) (zip (map (\<lambda>r. the (row_date e r)) rs) (map get_clicks rs))
     = map (row_point e) rs"
    by (intro nth_equalityI) (simp_all add: row_point_def)
  show ?thesis
    unfolding date_frame_def by (simp add: 1 2 3)
qed


section \<open>The heuristic score and its label\<close>

text \<open>
  C1. For every title and keyword the score is 80 when the lower-cased, trimmed keyword
  occurs as a substring of the lower-cased, trimmed title, and 50 otherwise; it is never
  anything but 50 or 80.
\<close>

theorem heuristic_score_rule:
  "conf_of title kw =
     (if (\<exists>p q. lower (strip title) = p @ lower (strip kw) @ q) then 80 else 50)
   \<and> conf_of title kw \<in> {50, 80}"
  by (simp add: conf_of_def keyword_in_title_def str_contains_iff)

text \<open>
  C2. The label is Optimizable exactly when the score is strictly above 70. The score is
  never 70; 50 gives Not Optimizable and 80 gives Optimizable.
\<close>

theorem label_threshold:
  "(fst (seo_prediction title kw) = Optimizable) = (snd (seo_prediction title kw) > 70)
   \<and> snd (seo_prediction title kw) = conf_of title kw
   \<and> conf_of title kw \<noteq> 70
   \<and> label_of 50 = Not_Optimizable \<and> label_of 80 = Optimizable
   \<and> fst (seo_prediction title kw) =
       (if conf_of title kw = 80 then Optimizable else Not_Optimizable)"
  by (simp add: seo_prediction_def label_of_def conf_of_def Let_def)

text \<open>
  C9, as stated, fails. \<open>STRASSE\<close> is the upper case of the word written with a sharp
  s, but \<open>str.lower\<close> takes it to \<open>strasse\<close> with a double s, which is another text:
  as a keyword the word is found in itself, and not in its upper case.
\<close>

theorem score_case_counterexample:
  "conf_of strasse strasse = 80 \<and> conf_of ''STRASSE'' strasse = 50
   \<and> lower ''STRASSE'' = ''strasse'' \<and> lower strasse = strasse"
  by code_simp

text \<open>
  C9, amended. On strings of code points below 256, the score does not change when
  letters of the title or of the keyword are swapped with their one-code-point case
  partner (any letter of A to Z and a to z among them), nor when whitespace is added or
  removed at either end of either argument; an empty keyword, and one of whitespace only,
  scores 80.
\<close>

theorem score_case_space_invariant:
  assumes "case_swapped title title'" "case_swapped kw kw'"
    and "list_all is_space a" "list_all is_space b"
    and "list_all is_space c" "list_all is_space d"
  shows "conf_of (a @ title' @ b) (c @ kw' @ d) = conf_of title kw
         \<and> conf_of title [] = 80 \<and> conf_of title c = 80"
proof -
  have "strip c = []"
    by (simp only: strip_def dropWhile_all_Nil [OF assms(5)] rev.simps dropWhile.simps)
  then have e: "lower (strip c) = []" "lower (strip []) = []"
    by (simp_all add: strip_def lower_def)
  have s: "str_contains [] s" for s
    by (cases s) simp_all
  have "conf_of (a @ title' @ b) (c @ kw' @ d) = conf_of title kw"
    unfolding conf_of_def keyword_in_title_def
    by (simp only: lower_strip_variant [OF assms(1) assms(3) assms(4)]
        lower_strip_variant [OF assms(2) assms(5) assms(6)])
  moreover have "conf_of title [] = 80" "conf_of title c = 80"
    unfolding conf_of_def keyword_in_title_def by (simp_all only: e s if_True)
  ultimately show ?thesis by simp
qed

theorem score_case_space_invariant_witness:
  "case_swapped ''FOO BAR'' ''Foo Bar'' \<and> case_swapped ''FOO'' ''foo''
   \<and> list_all is_space '' ''
   \<and> conf_of '' Foo Bar '' ''foo'' = conf_of ''FOO BAR'' ''FOO''
   \<and> conf_of ''FOO BAR'' [] = 80"
proof -
  have t: "case_swapped ''FOO BAR'' ''Foo Bar''" by code_simp
  have k: "case_swapped ''FOO'' ''foo''" by code_simp
  have s: "list_all is_space '' ''" by code_simp
  have e: "list_all is_space []" by simp
  show ?thesis
    using t k s score_case_space_invariant [OF t k s s e e] by simp
qed

lemma date_frame_frame:
  assumes "date_frame e rs = Inr pts"
  shows "frame_of_rows e rs pts"
proof -
  from date_frame_Inr [OF assms]
  have hd: "list_all (has_date e) rs" and pts: "pts = sort_key ds (map (row_point e) rs)"
    by simp_all
  have m: "mset pts = mset (map (row_point e) rs)"
    using pts by simp
  have s: "sorted (map ds pts)"
    using pts by (simp add: sorted_sort_key)
  have "mset (map ds pts) = mset (map ds (map (row_point e) rs))"
    using m by (metis mset_map)
  then have "distinct (map ds pts) = distinct (map ds (map (row_point e) rs))"
    by (rule mset_eq_imp_distinct_iff)
  also have "map ds (map (row_point e) rs) = map the (map (row_date e) rs)"
    by (simp add: row_point_def)
  also have "distinct (map the (map (row_date e) rs)) = distinct (map (row_date e) rs)"
  proof -
    have "inj_on the (set (map (row_date e) rs))"
      using hd by (auto simp add: inj_on_def list_all_iff has_date_def) (metis option.sel)
    then show ?thesis by (simp only: distinct_map) simp
  qed
  finally have d: "distinct (map ds pts) = distinct (map (row_date e) rs)" .
  have "set pts = row_point e ` set rs"
    using m by (metis mset_eq_setD set_map)
  then have v: "list_all (\<lambda>p. 0 \<le> y p) pts = list_all (\<lambda>r. 0 \<le> get_clicks r) rs"
    by (simp add: list_all_iff row_point_def)
  show ?thesis
    unfolding frame_of_rows_def using s m d v by (simp add: strict_sorted_iff)
qed

lemma no_rows_get_rows: "no_rows r \<Longrightarrow> get_rows r = []"
  by (auto simp add: no_rows_def get_rows_def)

section \<open>Empty results\<close>

text \<open>
  C8. When the remote source answers a request with zero rows (an empty \<open>rows\<close>
  field or none at all), each fetch operation returns the empty table and raises nothing.
  A failure of the remote call comes back from each of the four operations as the error
  instead, so the two outcomes differ.
\<close>

theorem empty_result_not_error:
  "(remote_answer e days site_body = Inr r \<and> no_rows r \<longrightarrow> fetch_site_data e days = Inr [])
   \<and> (remote_answer e days (\<lambda>s t. queries_body s t limit) = Inr r \<and> no_rows r
        \<longrightarrow> fetch_queries_df e days limit = Inr [])
   \<and> (remote_answer e days (\<lambda>s t. filter_body s t ''page'' (rstrip_slash SITE_URL @ path)) = Inr r
        \<and> no_rows r \<longrightarrow> fetch_page_data e path days = Inr [])
   \<and> (remote_answer e days (\<lambda>s t. filter_body s t ''query'' kw) = Inr r \<and> no_rows r
        \<longrightarrow> fetch_keyword_data e kw days = Inr [])
   \<and> (remote_answer e days site_body = Inl err \<longrightarrow> fetch_site_data e days = Inl err)
   \<and> (remote_answer e days (\<lambda>s t. queries_body s t limit) = Inl err
        \<longrightarrow> fetch_queries_df e days limit = Inl err)
   \<and> (remote_answer e days (\<lambda>s t. filter_body s t ''page'' (rstrip_slash SITE_URL @ path))
          = Inl err
        \<longrightarrow> fetch_page_data e path days = Inl err)
   \<and> (remote_answer e days (\<lambda>s t. filter_body s t ''query'' kw) = Inl err
        \<longrightarrow> fetch_keyword_data e kw days = Inl err)"
  by (simp add: remote_fetch_site remote_fetch_queries remote_fetch_page remote_fetch_keyword
      no_rows_get_rows date_frame_Nil)

theorem empty_result_not_error_witness:
  "remote_answer (sample_env (\<lambda>req. Inr \<lparr>rows = None\<rparr>)) 90 site_body = Inr \<lparr>rows = None\<rparr>
   \<and> no_rows \<lparr>rows = None\<rparr>
   \<and> fetch_site_data (sample_env (\<lambda>req. Inr \<lparr>rows = None\<rparr>)) 90 = Inr []
   \<and> fetch_queries_df (sample_env (\<lambda>req. Inr \<lparr>rows = None\<rparr>)) 30 5 = Inr []
   \<and> fetch_page_data (sample_env (\<lambda>req. Inr \<lparr>rows = None\<rparr>)) ''/blog'' 90 = Inr []
   \<and> fetch_keyword_data (sample_env (\<lambda>req. Inr \<lparr>rows = None\<rparr>)) ''seo'' 90 = Inr []
   \<and> fetch_site_data (sample_env (\<lambda>req. Inl HttpError)) 90 = Inl HttpError
   \<and> fetch_queries_df (sample_env (\<lambda>req. Inl HttpError)) 30 5 = Inl HttpError
   \<and> fetch_page_data (sample_env (\<lambda>req. Inl HttpError)) ''/blog'' 90 = Inl HttpError
   \<and> fetch_keyword_data (sample_env (\<lambda>req. Inl HttpError)) ''seo'' 90 = Inl HttpError"
proof -
  let ?e = "sample_env (\<lambda>req. Inr \<lparr>rows = None\<rparr>)"
  let ?f = "sample_env (\<lambda>req. Inl HttpError)"
  have a: "remote_answer ?e d body = Inr \<lparr>rows = None\<rparr>" if "d = 90 \<or> d = 30" for d body
    using that by (auto simp add: remote_answer_def sample_env_def start_date_def)
  have b: "remote_answer ?f d body = Inl HttpError" if "d = 90 \<or> d = 30" for d body
    using that by (auto simp add: remote_answer_def sample_env_def start_date_def)
  have n: "no_rows \<lparr>rows = None\<rparr>" by (simp add: no_rows_def)
  show ?thesis
    using a b n
      empty_result_not_error [of ?e 90 "\<lparr>rows = None\<rparr>" 5 "''/blog''" "''seo''" HttpError]
      empty_result_not_error [of ?e 30 "\<lparr>rows = None\<rparr>" 5 "''/blog''" "''seo''" HttpError]
      empty_result_not_error [of ?f 90 "\<lparr>rows = None\<rparr>" 5 "''/blog''" "''seo''" HttpError]
      empty_result_not_error [of ?f 30 "\<lparr>rows = None\<rparr>" 5 "''/blog''" "''seo''" HttpError]
    by simp
qed

section \<open>Missing metrics\<close>

lemma query_record_has_key:
  "has_key r \<Longrightarrow>
   query_record r =
     Inr \<lparr>keyword = hd (the (keys r)), clicks = get_clicks r, impressions = get_impressions r\<rparr>"
  by (auto simp add: has_key_def query_record_def key0_def split: option.splits list.splits)

lemma collect_query_record:
  assumes "list_all has_key rs"
  shows "collect query_record rs =
     Inr (map (\<lambda>r. \<lparr>keyword = hd (the (keys r)), clicks = get_clicks r,
                     impressions = get_impressions r\<rparr>) rs)"
  using assms by (simp add: collect_Inr_iff list_all_iff query_record_has_key)

lemma sample_answer:
  "remote_answer (sample_env svc) 30 body = svc (body 738886 738916)"
  "remote_answer (sample_env svc) 90 body = svc (body 738826 738916)"
  by (simp_all add: remote_answer_def sample_env_def start_date_def)

text \<open>
  C10. A response row that has a first key but no \<open>clicks\<close> field (or, in the query
  table, no \<open>impressions\<close> field) is given the value 0 for it, and the fetch operation
  returns its table as usual. A row of the query table can therefore have more clicks
  than impressions.
\<close>

theorem missing_metric_defaults:
  "(remote_answer e days (\<lambda>s t. queries_body s t limit) = Inr r \<and> list_all has_key (get_rows r)
      \<longrightarrow> fetch_queries_df e days limit =
           Inr (map (\<lambda>x. \<lparr>keyword = hd (the (keys x)),
                           clicks = (case row_clicks x of None \<Rightarrow> 0 | Some c \<Rightarrow> c),
                           impressions = (case row_impressions x of None \<Rightarrow> 0 | Some c \<Rightarrow> c)\<rparr>)
                  (get_rows r)))
   \<and> (remote_answer e days site_body = Inr r \<and> list_all (has_date e) (get_rows r)
      \<longrightarrow> fetch_site_data e days =
           Inr (sort_key ds
                  (map (\<lambda>x. \<lparr>ds = the (row_date e x),
                              y = (case row_clicks x of None \<Rightarrow> 0 | Some c \<Rightarrow> c)\<rparr>)
                     (get_rows r))))
   \<and> (remote_answer e days (\<lambda>s t. filter_body s t ''page'' (rstrip_slash SITE_URL @ path)) = Inr r
        \<and> list_all (has_date e) (get_rows r)
      \<longrightarrow> fetch_page_data e path days =
           Inr (sort_key ds
                  (map (\<lambda>x. \<lparr>ds = the (row_date e x),
                              y = (case row_clicks x of None \<Rightarrow> 0 | Some c \<Rightarrow> c)\<rparr>)
                     (get_rows r))))
   \<and> (remote_answer e days (\<lambda>s t. filter_body s t ''query'' kw) = Inr r
        \<and> list_all (has_date e) (get_rows r)
      \<longrightarrow> fetch_keyword_data e kw days =
           Inr (sort_key ds
                  (map (\<lambda>x. \<lparr>ds = the (row_date e x),
                              y = (case row_clicks x of None \<Rightarrow> 0 | Some c \<Rightarrow> c)\<rparr>)
                     (get_rows r))))
   \<and> (\<exists>e' q. fetch_queries_df e' 30 5 = Inr [q] \<and> impressions q < clicks q)"
proof -
  have rp: "row_point e = (\<lambda>x. \<lparr>ds = the (row_date e x),
      y = (case row_clicks x of None \<Rightarrow> 0 | Some c \<Rightarrow> c)\<rparr>)"
    by (simp add: row_point_def get_clicks_def fun_eq_iff)
  have qr: "(\<lambda>r. \<lparr>keyword = hd (the (keys r)), clicks = get_clicks r,
                     impressions = get_impressions r\<rparr>) =
    (\<lambda>x. \<lparr>keyword = hd (the (keys x)),
                           clicks = (case row_clicks x of None \<Rightarrow> 0 | Some c \<Rightarrow> c),
                           impressions = (case row_impressions x of None \<Rightarrow> 0 | Some c \<Rightarrow> c)\<rparr>)"
    by (simp add: get_clicks_def get_impressions_def fun_eq_iff)
  have 1: "fetch_queries_df (sample_env (answer_rows [sample_row ''seo'' (Some 5) None])) 30 5
      = Inr [\<lparr>keyword = ''seo'', clicks = 5, impressions = 0\<rparr>]"
    by (simp add: remote_fetch_queries sample_answer answer_rows_def get_rows_def
        query_record_def key0_def sample_row_def get_clicks_def get_impressions_def)
  have "\<exists>e' q. fetch_queries_df e' 30 5 = Inr [q] \<and> impressions q < clicks q"
    by (rule exI [of _ "sample_env (answer_rows [sample_row ''seo'' (Some 5) None])"],
        rule exI [of _ "\<lparr>keyword = ''seo'', clicks = 5, impressions = 0\<rparr>"])
      (simp add: 1)
  then show ?thesis
    by (simp add: remote_fetch_site remote_fetch_queries remote_fetch_page remote_fetch_keyword
      date_frame_has_date collect_query_record rp [symmetric] qr [symmetric])
qed

theorem missing_metric_defaults_witness:
  "remote_answer (sample_env (answer_rows [sample_row ''2024-01-02'' None (Some 7),
       sample_row ''2024-01-01'' (Some 3) None])) 30 site_body
     = Inr \<lparr>rows = Some [sample_row ''2024-01-02'' None (Some 7),
          sample_row ''2024-01-01'' (Some 3) None]\<rparr>
   \<and> list_all has_key [sample_row ''2024-01-02'' None (Some 7),
          sample_row ''2024-01-01'' (Some 3) None]
   \<and> list_all (has_date (sample_env (answer_rows [sample_row ''2024-01-02'' None (Some 7),
          sample_row ''2024-01-01'' (Some 3) None])))
        [sample_row ''2024-01-02'' None (Some 7), sample_row ''2024-01-01'' (Some 3) None]
   \<and> fetch_queries_df (sample_env (answer_rows [sample_row ''2024-01-02'' None (Some 7),
          sample_row ''2024-01-01'' (Some 3) None])) 30 5
     = Inr [\<lparr>keyword = ''2024-01-02'', clicks = 0, impressions = 7\<rparr>,
            \<lparr>keyword = ''2024-01-01'', clicks = 3, impressions = 0\<rparr>]
   \<and> fetch_site_data (sample_env (answer_rows [sample_row ''2024-01-02'' None (Some 7),
          sample_row ''2024-01-01'' (Some 3) None])) 30
     = Inr [\<lparr>ds = 738886, y = 3\<rparr>, \<lparr>ds = 738887, y = 0\<rparr>]"
proof -
  let ?rs = "[sample_row ''2024-01-02'' None (Some 7), sample_row ''2024-01-01'' (Some 3) None]"
  let ?e = "sample_env (answer_rows ?rs)"
  have a: "remote_answer ?e 30 body = Inr \<lparr>rows = Some ?rs\<rparr>" for body
    by (simp add: sample_answer answer_rows_def)
  have g: "get_rows \<lparr>rows = Some ?rs\<rparr> = ?rs"
    by (simp add: get_rows_def)
  have k: "list_all has_key ?rs"
    by (simp add: has_key_def sample_row_def)
  have rd: "row_date ?e (sample_row ''2024-01-02'' None (Some 7)) = Some 738887"
    "row_date ?e (sample_row ''2024-01-01'' (Some 3) None) = Some 738886"
    by (simp_all add: row_date_def key0_def sample_row_def sample_env_def sample_parse_def)
  have d: "list_all (has_date ?e) ?rs"
    by (simp add: has_date_def rd)
  have f: "keys (sample_row s c i) = Some [s]" "row_clicks (sample_row s c i) = c"
    "row_impressions (sample_row s c i) = i" for s c i
    by (simp_all add: sample_row_def)
  note t = missing_metric_defaults [of ?e 30 5 "\<lparr>rows = Some ?rs\<rparr>" "[]" "[]"]
  have "fetch_queries_df ?e 30 5
     = Inr [\<lparr>keyword = ''2024-01-02'', clicks = 0, impressions = 7\<rparr>,
            \<lparr>keyword = ''2024-01-01'', clicks = 3, impressions = 0\<rparr>]"
    using t a k by (simp add: g f)
  moreover have "fetch_site_data ?e 30 = Inr [\<lparr>ds = 738886, y = 3\<rparr>, \<lparr>ds = 738887, y = 0\<rparr>]"
    using t a d by (simp add: g f rd)
  ultimately show ?thesis
    using a k d by simp
qed

section \<open>Order and values of a fetched series\<close>

lemma finish_dates_frame:
  assumes "finish_dates e ans = Inr pts"
  shows "\<exists>r. ans = Inr r \<and> frame_of_rows e (get_rows r) pts"
proof (cases ans)
  case (Inl err)
  with assms show ?thesis by (simp add: finish_dates_def)
next
  case (Inr r)
  with assms have "date_frame e (get_rows r) = Inr pts" by (simp add: finish_dates_def)
  then have "frame_of_rows e (get_rows r) pts" by (rule date_frame_frame)
  with Inr show ?thesis by simp
qed

lemma sample_row_fields:
  "keys (sample_row s c i) = Some [s]" "row_clicks (sample_row s c i) = c"
  "row_impressions (sample_row s c i) = i"
  by (simp_all add: sample_row_def)

lemma sample_row_date:
  "row_date (sample_env svc) (sample_row s c i) = sample_parse s"
  by (simp add: row_date_def key0_def sample_row_def sample_env_def)

lemma sample_parse_values:
  "sample_parse ''2000-01-01'' = Some 730120" "sample_parse ''2024-01-01'' = Some 738886"
  "sample_parse ''2024-01-02'' = Some 738887" "sample_parse ''2024-01-03'' = Some 738888"
  by (simp_all add: sample_parse_def)

lemma sample_site_frame:
  assumes "list_all (has_date (sample_env (answer_rows rs))) rs"
  shows "fetch_site_data (sample_env (answer_rows rs)) 30 =
    Inr (sort_key ds (map (row_point (sample_env (answer_rows rs))) rs))"
  using date_frame_has_date [OF assms]
  by (simp add: remote_fetch_site sample_answer answer_rows_def get_rows_def)

lemma frame_invariant:
  assumes "finish_dates e ans = Inr pts" "ans = Inr r" "date_grouped e r"
  shows "sorted_wrt (<) (map ds pts) \<and> distinct (map ds pts) \<and> list_all (\<lambda>p. 0 \<le> y p) pts"
proof -
  from finish_dates_frame [OF assms(1)] assms(2)
  have "frame_of_rows e (get_rows r) pts" by simp
  with assms(3) have "sorted_wrt (<) (map ds pts)" "list_all (\<lambda>p. 0 \<le> y p) pts"
    by (simp_all add: frame_of_rows_def date_grouped_def)
  then show ?thesis by (simp add: strict_sorted_iff)
qed

text \<open>
  C7. Every time-series table a fetch operation returns for an answer grouped by date (one
  row for a date, clicks not negative) has strictly increasing dates, hence no date twice,
  and no negative value.
\<close>

theorem fetched_series_invariant:
  "(fetch_site_data e days = Inr pts \<and> remote_answer e days site_body = Inr r
      \<and> date_grouped e r
      \<longrightarrow> sorted_wrt (<) (map ds pts) \<and> distinct (map ds pts)
          \<and> list_all (\<lambda>p. 0 \<le> y p) pts)
   \<and> (fetch_page_data e path days = Inr pts
      \<and> remote_answer e days
            (\<lambda>s t. filter_body s t ''page'' (rstrip_slash SITE_URL @ path)) = Inr r
      \<and> date_grouped e r
      \<longrightarrow> sorted_wrt (<) (map ds pts) \<and> distinct (map ds pts)
          \<and> list_all (\<lambda>p. 0 \<le> y p) pts)
   \<and> (fetch_keyword_data e kw days = Inr pts
      \<and> remote_answer e days (\<lambda>s t. filter_body s t ''query'' kw) = Inr r
      \<and> date_grouped e r
      \<longrightarrow> sorted_wrt (<) (map ds pts) \<and> distinct (map ds pts)
          \<and> list_all (\<lambda>p. 0 \<le> y p) pts)"
proof -
  have h: "sorted_wrt (<) (map ds pts) \<and> distinct (map ds pts) \<and> list_all (\<lambda>p. 0 \<le> y p) pts"
    if "finish_dates e (remote_answer e days body) = Inr pts"
      "remote_answer e days body = Inr r" "date_grouped e r" for body
    using that by (rule frame_invariant)
  have f: "fetch_site_data e days = finish_dates e (remote_answer e days site_body)"
    "fetch_page_data e path days = finish_dates e (remote_answer e days
       (\<lambda>s t. filter_body s t ''page'' (rstrip_slash SITE_URL @ path)))"
    "fetch_keyword_data e kw days = finish_dates e (remote_answer e days
       (\<lambda>s t. filter_body s t ''query'' kw))"
    by (simp_all add: remote_fetch_site remote_fetch_page remote_fetch_keyword finish_dates_def)
  show ?thesis
    unfolding f using h by blast
qed

theorem fetched_series_invariant_witness:
  "fetch_site_data
     (sample_env (answer_rows [sample_row ''2024-01-03'' (Some 4) None,
        sample_row ''2024-01-01'' None None, sample_row ''2024-01-02'' (Some 2) None])) 30
   = Inr [\<lparr>ds = 738886, y = 0\<rparr>, \<lparr>ds = 738887, y = 2\<rparr>, \<lparr>ds = 738888, y = 4\<rparr>]
   \<and> remote_answer
       (sample_env (answer_rows [sample_row ''2024-01-03'' (Some 4) None,
          sample_row ''2024-01-01'' None None, sample_row ''2024-01-02'' (Some 2) None])) 30
       site_body
     = Inr \<lparr>rows = Some [sample_row ''2024-01-03'' (Some 4) None,
         sample_row ''2024-01-01'' None None, sample_row ''2024-01-02'' (Some 2) None]\<rparr>
   \<and> date_grouped
       (sample_env (answer_rows [sample_row ''2024-01-03'' (Some 4) None,
          sample_row ''2024-01-01'' None None, sample_row ''2024-01-02'' (Some 2) None]))
       \<lparr>rows = Some [sample_row ''2024-01-03'' (Some 4) None,
         sample_row ''2024-01-01'' None None, sample_row ''2024-01-02'' (Some 2) None]\<rparr>
   \<and> sorted_wrt (<) (map ds [\<lparr>ds = 738886, y = 0\<rparr>, \<lparr>ds = 738887, y = 2\<rparr>,
        \<lparr>ds = 738888, y = 4\<rparr>])
   \<and> list_all (\<lambda>p. 0 \<le> y p) [\<lparr>ds = 738886, y = 0\<rparr>, \<lparr>ds = 738887, y = 2\<rparr>,
        \<lparr>ds = 738888, y = 4\<rparr>]"
proof -
  let ?rs = "[sample_row ''2024-01-03'' (Some 4) None, sample_row ''2024-01-01'' None None,
     sample_row ''2024-01-02'' (Some 2) None]"
  let ?e = "sample_env (answer_rows ?rs)"
  let ?pts = "[\<lparr>ds = 738886, y = 0\<rparr>, \<lparr>ds = 738887, y = 2\<rparr>, \<lparr>ds = 738888, y = 4\<rparr>]"
  have f: "fetch_site_data ?e 30 = Inr ?pts"
    by (simp add: sample_site_frame has_date_def sample_row_date sample_parse_values
        row_point_def get_clicks_def sample_row_fields)
  have a: "remote_answer ?e 30 site_body = Inr \<lparr>rows = Some ?rs\<rparr>"
    by (simp add: sample_answer answer_rows_def)
  have g: "date_grouped ?e \<lparr>rows = Some ?rs\<rparr>"
    by (simp add: date_grouped_def get_rows_def sample_row_date sample_parse_values
        get_clicks_def sample_row_fields)
  from fetched_series_invariant [of ?e 30 ?pts "\<lparr>rows = Some ?rs\<rparr>"] f a g
  have "sorted_wrt (<) (map ds ?pts) \<and> list_all (\<lambda>p. 0 \<le> y p) ?pts"
    by blast
  with f a g show ?thesis by blast
qed

section \<open>The date range of a request\<close>

lemma frame_dates:
  assumes "frame_of_rows e rs pts" "list_all (has_date e) rs"
  shows "set (map ds pts) = set (map (\<lambda>r. the (row_date e r)) rs)"
proof -
  from assms(1) have "mset pts = mset (map (row_point e) rs)"
    by (simp add: frame_of_rows_def)
  then have "set pts = set (map (row_point e) rs)"
    by (rule mset_eq_setD)
  then have "ds ` set pts = ds ` row_point e ` set rs" by simp
  then show ?thesis by (simp add: image_image row_point_def)
qed

lemma window_start_date:
  assumes "0 \<le> days" "days \<le> MAX_HISTORY" "MAX_HISTORY < tday" "tday \<le> 3652059"
  shows "start_date tday days = Inr (tday - days)"
  using assms by (simp add: start_date_def MAX_HISTORY_def)

lemma frame_within:
  assumes "finish_dates e (svc req) = Inr pts" "honours_range e svc"
  shows "list_all (\<lambda>p. startDate req \<le> ds p \<and> ds p \<le> endDate req) pts"
proof -
  from finish_dates_frame [OF assms(1)] obtain r where r: "svc req = Inr r"
    and fr: "frame_of_rows e (get_rows r) pts" by blast
  from assms(1) r have "date_frame e (get_rows r) = Inr pts" by (simp add: finish_dates_def)
  then have hd: "list_all (has_date e) (get_rows r)" by (simp add: date_frame_Inr)
  from assms(2) r have w: "list_all (\<lambda>x. case row_date e x of None \<Rightarrow> True
      | Some d \<Rightarrow> startDate req \<le> d \<and> d \<le> endDate req) (get_rows r)"
    unfolding honours_range_def by blast
  have "startDate req \<le> d \<and> d \<le> endDate req" if "d \<in> set (map ds pts)" for d
  proof -
    from that frame_dates [OF fr hd] obtain x where x: "x \<in> set (get_rows r)"
      and d: "d = the (row_date e x)" by auto
    from hd x obtain d' where "row_date e x = Some d'"
      by (auto simp add: list_all_iff has_date_def)
    with w x d show ?thesis by (auto simp add: list_all_iff)
  qed
  then show ?thesis by (simp add: list_all_iff)
qed

text \<open>
  C6. For a number of days within the history window, every fetch operation builds its
  request with \<open>startDate = today - days\<close> and \<open>endDate = today\<close> and hands that request
  to the remote source; and when the remote source answers with rows of the range it was
  asked for, no date of a returned series lies outside the range, both ends included.
\<close>

theorem request_date_range:
  assumes "gsc_service e = Inr svc"
    and "0 \<le> days" "days \<le> MAX_HISTORY" "MAX_HISTORY < today e" "today e \<le> 3652059"
  shows "fetch_site_data e days = finish_dates e (svc (site_body (today e - days) (today e)))
    \<and> fetch_queries_df e days limit
        = finish_queries (svc (queries_body (today e - days) (today e) limit))
    \<and> fetch_page_data e path days
        = finish_dates e (svc (filter_body (today e - days) (today e) ''page''
            (rstrip_slash SITE_URL @ path)))
    \<and> fetch_keyword_data e kw days
        = finish_dates e (svc (filter_body (today e - days) (today e) ''query'' kw))
    \<and> startDate (site_body a b) = a \<and> endDate (site_body a b) = b
    \<and> startDate (queries_body a b limit) = a \<and> endDate (queries_body a b limit) = b
    \<and> startDate (filter_body a b dname expr) = a \<and> endDate (filter_body a b dname expr) = b
    \<and> (honours_range e svc \<and> fetch_site_data e days = Inr pts
        \<longrightarrow> list_all (\<lambda>p. today e - days \<le> ds p \<and> ds p \<le> today e) pts)
    \<and> (honours_range e svc \<and> fetch_page_data e path days = Inr pts
        \<longrightarrow> list_all (\<lambda>p. today e - days \<le> ds p \<and> ds p \<le> today e) pts)
    \<and> (honours_range e svc \<and> fetch_keyword_data e kw days = Inr pts
        \<longrightarrow> list_all (\<lambda>p. today e - days \<le> ds p \<and> ds p \<le> today e) pts)"
proof -
  note sd = window_start_date [OF assms(2-5)]
  have ra: "remote_answer e days body = svc (body (today e - days) (today e))" for body
    by (simp add: remote_answer_def assms(1) sd)
  have f1: "fetch_site_data e days = finish_dates e (svc (site_body (today e - days) (today e)))"
    by (simp add: remote_fetch_site ra finish_dates_def)
  have f2: "fetch_queries_df e days limit
        = finish_queries (svc (queries_body (today e - days) (today e) limit))"
    by (simp add: remote_fetch_queries ra finish_queries_def)
  have f3: "fetch_page_data e path days
        = finish_dates e (svc (filter_body (today e - days) (today e) ''page''
            (rstrip_slash SITE_URL @ path)))"
    by (simp add: remote_fetch_page ra finish_dates_def)
  have f4: "fetch_keyword_data e kw days
        = finish_dates e (svc (filter_body (today e - days) (today e) ''query'' kw))"
    by (simp add: remote_fetch_keyword ra finish_dates_def)
  have b: "startDate (site_body a b) = a \<and> endDate (site_body a b) = b
    \<and> startDate (queries_body a b limit) = a \<and> endDate (queries_body a b limit) = b
    \<and> startDate (filter_body a b dname expr) = a \<and> endDate (filter_body a b dname expr) = b"
    for a b dname expr
    by (simp add: site_body_def queries_body_def filter_body_def)
  have w1: "list_all (\<lambda>p. today e - days \<le> ds p \<and> ds p \<le> today e) pts"
    if "honours_range e svc" "fetch_site_data e days = Inr pts"
    using frame_within [of e svc "site_body (today e - days) (today e)" pts] that
    by (simp add: f1 [symmetric] b)
  have w3: "list_all (\<lambda>p. today e - days \<le> ds p \<and> ds p \<le> today e) pts"
    if "honours_range e svc" "fetch_page_data e path days = Inr pts"
    using frame_within [of e svc "filter_body (today e - days) (today e) ''page''
            (rstrip_slash SITE_URL @ path)" pts] that
    by (simp add: f3 [symmetric] b)
  have w4: "list_all (\<lambda>p. today e - days \<le> ds p \<and> ds p \<le> today e) pts"
    if "honours_range e svc" "fetch_keyword_data e kw days = Inr pts"
    using frame_within [of e svc "filter_body (today e - days) (today e) ''query'' kw" pts] that
    by (simp add: f4 [symmetric] b)
  from f1 f2 f3 f4 b w1 w3 w4 show ?thesis by blast
qed

theorem request_date_range_witness:
  "gsc_service (sample_env (answer_range 738886 738916
       [sample_row ''2024-01-02'' (Some 2) None, sample_row ''2024-01-01'' (Some 7) None]))
     = Inr (answer_range 738886 738916
       [sample_row ''2024-01-02'' (Some 2) None, sample_row ''2024-01-01'' (Some 7) None])
   \<and> honours_range (sample_env (answer_range 738886 738916
       [sample_row ''2024-01-02'' (Some 2) None, sample_row ''2024-01-01'' (Some 7) None]))
      (answer_range 738886 738916
       [sample_row ''2024-01-02'' (Some 2) None, sample_row ''2024-01-01'' (Some 7) None])
   \<and> today (sample_env (answer_range 738886 738916
       [sample_row ''2024-01-02'' (Some 2) None, sample_row ''2024-01-01'' (Some 7) None])) - 30
     = 738886
   \<and> fetch_site_data (sample_env (answer_range 738886 738916
       [sample_row ''2024-01-02'' (Some 2) None, sample_row ''2024-01-01'' (Some 7) None])) 30
     = Inr [\<lparr>ds = 738886, y = 7\<rparr>, \<lparr>ds = 738887, y = 2\<rparr>]
   \<and> list_all (\<lambda>p. 738886 \<le> ds p \<and> ds p \<le> 738916)
       [\<lparr>ds = 738886, y = 7\<rparr>, \<lparr>ds = 738887, y = 2\<rparr>]
   \<and> fetch_queries_df (sample_env (answer_range 738886 738916
       [sample_row ''2024-01-02'' (Some 2) None, sample_row ''2024-01-01'' (Some 7) None])) 30 5
     = Inr [\<lparr>keyword = ''2024-01-02'', clicks = 2, impressions = 0\<rparr>,
            \<lparr>keyword = ''2024-01-01'', clicks = 7, impressions = 0\<rparr>]
   \<and> fetch_site_data (sample_env (answer_range 738886 738916
       [sample_row ''2024-01-02'' (Some 2) None, sample_row ''2024-01-01'' (Some 7) None])) 31
     = Inl HttpError"
proof -
  let ?rs = "[sample_row ''2024-01-02'' (Some 2) None, sample_row ''2024-01-01'' (Some 7) None]"
  let ?svc = "answer_range 738886 738916 ?rs"
  let ?e = "sample_env ?svc"
  let ?pts = "[\<lparr>ds = 738886, y = 7\<rparr>, \<lparr>ds = 738887, y = 2\<rparr>]"
  have s: "gsc_service ?e = Inr ?svc" and t: "today ?e = 738916"
    by (simp_all add: sample_env_def)
  have hr: "honours_range ?e ?svc"
    unfolding honours_range_def
  proof (intro allI impI)
    fix req resp
    assume "?svc req = Inr resp"
    then have "startDate req = 738886" "endDate req = 738916" "get_rows resp = ?rs"
      by (auto simp add: answer_range_def get_rows_def split: if_splits)
    then show "list_all (\<lambda>r. case row_date ?e r of None \<Rightarrow> True
        | Some d \<Rightarrow> startDate req \<le> d \<and> d \<le> endDate req) (get_rows resp)"
      by (simp add: sample_row_date sample_parse_values)
  qed
  have hd: "list_all (has_date ?e) ?rs"
    by (simp add: has_date_def sample_row_date sample_parse_values)
  have df: "date_frame ?e ?rs = Inr ?pts"
    by (simp add: date_frame_has_date [OF hd] sample_row_date sample_parse_values
        row_point_def get_clicks_def sample_row_fields)
  have qs: "collect query_record ?rs
     = Inr [\<lparr>keyword = ''2024-01-02'', clicks = 2, impressions = 0\<rparr>,
            \<lparr>keyword = ''2024-01-01'', clicks = 7, impressions = 0\<rparr>]"
    by (simp add: query_record_def key0_def get_clicks_def get_impressions_def
        sample_row_fields)
  have w: "0 \<le> d \<and> d \<le> MAX_HISTORY \<and> MAX_HISTORY < today ?e \<and> today ?e \<le> 3652059"
    if "d = 30 \<or> d = 31" for d :: int
    using that by (auto simp add: t MAX_HISTORY_def)
  note r30 = request_date_range [of ?e ?svc 30 5 "[]" "[]" _ _ _ _ ?pts]
  note r31 = request_date_range [of ?e ?svc 31]
  have a: "fetch_site_data ?e 30 = finish_dates ?e (?svc (site_body (today ?e - 30) (today ?e)))"
    and b: "fetch_queries_df ?e 30 5
       = finish_queries (?svc (queries_body (today ?e - 30) (today ?e) 5))"
    using r30 s w [of 30] by simp_all
  have c: "fetch_site_data ?e 31 = finish_dates ?e (?svc (site_body (today ?e - 31) (today ?e)))"
    using r31 s w [of 31] by simp
  have f30: "fetch_site_data ?e 30 = Inr ?pts"
    unfolding a t
    by (simp add: answer_range_def site_body_def finish_dates_def get_rows_def df)
  have "honours_range ?e ?svc \<and> fetch_site_data ?e 30 = Inr ?pts
      \<longrightarrow> list_all (\<lambda>p. today ?e - 30 \<le> ds p \<and> ds p \<le> today ?e) ?pts"
    using r30 s w [of 30] by simp
  with hr f30 have rng: "list_all (\<lambda>p. 738886 \<le> ds p \<and> ds p \<le> 738916) ?pts"
    by (simp add: t)
  have q30: "fetch_queries_df ?e 30 5
     = Inr [\<lparr>keyword = ''2024-01-02'', clicks = 2, impressions = 0\<rparr>,
            \<lparr>keyword = ''2024-01-01'', clicks = 7, impressions = 0\<rparr>]"
    unfolding b t
    by (simp add: answer_range_def queries_body_def finish_queries_def get_rows_def qs
        del: collect.simps)
  have f31: "fetch_site_data ?e 31 = Inl HttpError"
    unfolding c t by (simp add: answer_range_def site_body_def finish_dates_def)
  from s hr t f30 rng q30 f31 show ?thesis by simp
qed

section \<open>The average click-through rate\<close>

text \<open>
  C4. A row with clicks 10 and impressions 0 does not stop the ranking tab: nothing is
  raised. But its rate is an infinity, neither 0 nor not-a-number, and so is the average
  that the tab shows.
\<close>

theorem ctr_zero_impressions:
  "load_ranking (sample_env (answer_rows [sample_row ''seo'' (Some 10) (Some 0)])) 30 10
     = Inr (Ranking 10 PInf [\<lparr>keyword = ''seo'', clicks = 10, impressions = 0\<rparr>])
   \<and> true_div 10 0 = PInf
   \<and> avg_ctr [\<lparr>keyword = ''seo'', clicks = 10, impressions = 0\<rparr>,
               \<lparr>keyword = ''blog'', clicks = 1, impressions = 4\<rparr>] = PInf
   \<and> avg_ctr [\<lparr>keyword = ''blog'', clicks = 1, impressions = 4\<rparr>] = Fin 25"
proof -
  have "fetch_queries_df (sample_env (answer_rows [sample_row ''seo'' (Some 10) (Some 0)])) 30 10
      = Inr [\<lparr>keyword = ''seo'', clicks = 10, impressions = 0\<rparr>]"
    by (simp add: remote_fetch_queries sample_answer answer_rows_def get_rows_def
        query_record_def key0_def sample_row_fields get_clicks_def get_impressions_def)
  moreover have "true_div 10 0 = PInf"
    by (simp add: true_div_def)
  moreover have "avg_ctr [\<lparr>keyword = ''seo'', clicks = 10, impressions = 0\<rparr>] = PInf"
    by (simp add: avg_ctr_def true_div_def fl_mean_def)
  moreover have "avg_ctr [\<lparr>keyword = ''seo'', clicks = 10, impressions = 0\<rparr>,
               \<lparr>keyword = ''blog'', clicks = 1, impressions = 4\<rparr>] = PInf"
    by (simp add: avg_ctr_def true_div_def fl_mean_def)
  moreover have "avg_ctr [\<lparr>keyword = ''blog'', clicks = 1, impressions = 4\<rparr>] = Fin 25"
    by (simp add: avg_ctr_def true_div_def fl_mean_def round_half_even_def)
  ultimately show ?thesis
    by (simp add: load_ranking_def)
qed

section \<open>The forecast horizon\<close>

lemma sorted_last_Max:
  "sorted xs \<Longrightarrow> xs \<noteq> [] \<Longrightarrow> last xs = Max (set xs)"
  for xs :: "int list"
proof (induction xs)
  case Nil
  then show ?case by simp
next
  case (Cons a xs)
  show ?case
  proof (cases "xs = []")
    case True
    then show ?thesis by simp
  next
    case False
    with Cons have "last xs = Max (set xs)" by simp
    moreover have "a \<le> Max (set xs)"
      using Cons.prems(1) False by (metis List.finite_set Max_ge last_in_set calculation
          list.set_intros(1) order_trans set_ConsD sorted_simps(2))
    ultimately show ?thesis using False by (simp add: max_def)
  qed
qed

lemma last_history:
  assumes "df \<noteq> []"
  shows "last (sort (remdups (map ds df))) = Max (set (map ds df))"
proof -
  have "sort (remdups (map ds df)) \<noteq> []"
    using assms by (metis length_0_conv length_sort remdups_eq_nil_iff map_is_Nil_conv)
  then have "last (sort (remdups (map ds df))) = Max (set (sort (remdups (map ds df))))"
    by (intro sorted_last_Max) simp_all
  then show ?thesis by simp
qed

lemma filter_after_history:
  assumes "\<forall>d \<in> set hist. d \<le> L"
  shows "filter (\<lambda>r. L < fst r) (map (\<lambda>d. (d, f d)) (hist @ [L + 1 .. L + n]))
     = map (\<lambda>d. (d, f d)) [L + 1 .. L + n]"
proof -
  have "filter (\<lambda>r. L < fst r) (map (\<lambda>d. (d, f d)) hist) = []"
    using assms by (auto simp add: filter_empty_conv)
  moreover have "filter (\<lambda>r. L < fst r) (map (\<lambda>d. (d, f d)) [L + 1 .. L + n])
      = map (\<lambda>d. (d, f d)) [L + 1 .. L + n]"
    by (auto simp add: filter_id_conv)
  ultimately show ?thesis by simp
qed

text \<open>
  C5. For a history on which the fit succeeds and a positive number \<open>n\<close> of days, the
  forecast returns; its model has daily seasonality switched on; and the rows of its frame
  dated after the history are \<open>n\<close> rows, one for each of the \<open>n\<close> days that follow the last
  day of the history, in order.
\<close>

theorem forecast_horizon:
  assumes "fit_params lib True df = Inr p" and "df \<noteq> []" and "0 < n"
  shows "\<exists>m fc. forecast lib df n = Inr (m, fc) \<and> daily_seasonality m
     \<and> map fst (projected df fc) = [Max (set (map ds df)) + 1 .. Max (set (map ds df)) + n]
     \<and> int (length (projected df fc)) = n
     \<and> sorted_wrt (<) (map fst (projected df fc))"
proof -
  let ?L = "Max (set (map ds df))"
  let ?h = "sort (remdups (map ds df))"
  let ?m = "\<lparr>daily_seasonality = True, history_dates = ?h, params = Some p\<rparr>"
  let ?fc = "map (\<lambda>d. (d, estimate lib p d)) (?h @ [?L + 1 .. ?L + n])"
  have hne: "?h \<noteq> []"
    using assms(2) by (metis length_0_conv length_sort remdups_eq_nil_iff map_is_Nil_conv)
  have f: "fit lib (Prophet True) df = Inr ?m"
    by (simp add: fit_def Prophet_def assms(1))
  have mk: "make_future_dataframe ?m n = Inr (?h @ [?L + 1 .. ?L + n])"
    using hne assms(3) by (simp add: make_future_dataframe_def last_history [OF assms(2)])
  have pr: "predict lib ?m (?h @ [?L + 1 .. ?L + n]) = Inr ?fc"
    by (simp add: predict_def)
  have fo: "forecast lib df n = Inr (?m, ?fc)"
    unfolding forecast_def by (simp only: f mk pr sum.case)
  have le: "\<forall>d \<in> set ?h. d \<le> ?L" by simp
  have pj: "projected df ?fc = map (\<lambda>d. (d, estimate lib p d)) [?L + 1 .. ?L + n]"
    unfolding projected_def by (rule filter_after_history [OF le])
  have dates: "map fst (projected df ?fc) = [?L + 1 .. ?L + n]"
    unfolding pj by (simp add: comp_def)
  have len: "int (length (projected df ?fc)) = n"
    unfolding pj using assms(3) by simp
  have "sorted_wrt (<) [?L + 1 .. ?L + n]"
    by (simp add: strict_sorted_iff)
  with dates have srt: "sorted_wrt (<) (map fst (projected df ?fc))" by simp
  from fo dates len srt show ?thesis by auto
qed

theorem forecast_horizon_witness:
  "fit_params \<lparr>fit_params = (\<lambda>daily df. if daily then Inr (0::int) else Inl ValueError),
       estimate = (\<lambda>p d. (0::int))\<rparr> True
     (map (\<lambda>i. \<lparr>ds = 738886 + i, y = i\<rparr>) [0..9]) = Inr 0
   \<and> map (\<lambda>i. \<lparr>ds = 738886 + i, y = i\<rparr>) [0..9] \<noteq> []
   \<and> Max (set (map ds (map (\<lambda>i. \<lparr>ds = 738886 + i, y = i\<rparr>) [0..9]))) = 738895
   \<and> (\<exists>m fc. forecast \<lparr>fit_params = (\<lambda>daily df. if daily then Inr (0::int) else Inl ValueError),
            estimate = (\<lambda>p d. (0::int))\<rparr>
          (map (\<lambda>i. \<lparr>ds = 738886 + i, y = i\<rparr>) [0..9]) 15 = Inr (m, fc)
        \<and> daily_seasonality m
        \<and> map fst (projected (map (\<lambda>i. \<lparr>ds = 738886 + i, y = i\<rparr>) [0..9]) fc)
            = [738896 .. 738910]
        \<and> length (projected (map (\<lambda>i. \<lparr>ds = 738886 + i, y = i\<rparr>) [0..9]) fc) = 15)"
proof -
  let ?lib = "\<lparr>fit_params = (\<lambda>daily df. if daily then Inr (0::int) else Inl ValueError),
       estimate = (\<lambda>p d. (0::int))\<rparr>"
  let ?df = "map (\<lambda>i. \<lparr>ds = 738886 + i, y = i\<rparr>) [0..9]"
  have a: "fit_params ?lib True ?df = Inr 0" by simp
  have b: "?df \<noteq> []" by (simp add: upto_rec1)
  have c: "Max (set (map ds ?df)) = 738895" by (simp add: upto_rec1)
  from forecast_horizon [OF a b, of 15]
  obtain m fc where "forecast ?lib ?df 15 = Inr (m, fc)" "daily_seasonality m"
    "map fst (projected ?df fc) = [Max (set (map ds ?df)) + 1 .. Max (set (map ds ?df)) + 15]"
    "int (length (projected ?df fc)) = 15"
    by auto
  then have "forecast ?lib ?df 15 = Inr (m, fc) \<and> daily_seasonality m
      \<and> map fst (projected ?df fc) = [738896 .. 738910] \<and> length (projected ?df fc) = 15"
    by (simp only: c) simp
  then show ?thesis using a b c by blast
qed

end
